theory Spec2Isabelle
  imports Main
begin

section \<open>Bulk helpers of batchHelper.ts: data model\<close>

text \<open>
  The three exported helpers \<open>batchGetAll\<close>, \<open>batchPutAll\<close> and \<open>batchScanAll\<close> are
  embedded as functions over an explicit world: the state of the backend that answers
  \<open>dynamodb.send\<close> and the trace of everything the helper does that a caller can see
  (backend calls, timed waits, progress callbacks, console output).

  JavaScript objects used as dictionaries (\<open>RequestItems\<close>, \<open>Responses\<close>,
  \<open>UnprocessedKeys\<close>, \<open>UnprocessedItems\<close>) are association lists of their own
  properties, with distinct names: \<open>Object.keys\<close> is \<open>map fst\<close>. A read of a name that was
  taken from \<open>Object.keys\<close> of the same object is \<open>map_of\<close>; a read of a table name in a
  response goes on to \<open>Object.prototype\<close> when the response has no own property of that
  name (\<open>read_prop\<close> below). An optional property is an \<open>option\<close>.

  The module's numeric settings are JavaScript numbers. They are taken as integers here
  (milliseconds and an integral growth factor): the arithmetic of the model is the
  arithmetic of the code as long as every product \<open>backoff * factor\<close> stays within
  \<open>2 ^ 53\<close> in size, where doubles are exact on integers; fractional, infinite and
  \<open>NaN\<close> settings are outside the model. The settings are fixed for the duration of one
  call: the module variables are read in every round, and no \<open>configure\<close> is taken to run
  while a call is suspended.

  The retry loops have no bound on their number of rounds, so each loop carries fuel and
  returns \<open>None\<close> when the fuel runs out before the loop ends; \<open>Some\<close> is a call that
  returned or raised.
\<close>

subsection \<open>Exceptions and observable events\<close>

datatype 'e exn =
    Error string      \<comment> \<open>\<open>throw new Error(message)\<close> of the helper itself\<close>
  | TypeError         \<comment> \<open>raised by the runtime: spreading or reading \<open>undefined\<close>, \<open>JSON.stringify\<close>\<close>
  | Rejected 'e       \<comment> \<open>the promise of \<open>dynamodb.send\<close> rejected with \<open>e\<close>\<close>

datatype ('q, 'a) event =
    Send 'q 'a        \<comment> \<open>one \<open>dynamodb.send\<close>: the request and what came back\<close>
  | Wait int          \<comment> \<open>\<open>await wait(millis)\<close>\<close>
  | Callback string   \<comment> \<open>one call of \<open>logCallback\<close>\<close>
  | Console string    \<comment> \<open>\<open>console.log\<close>\<close>
  | Stdout string     \<comment> \<open>\<open>process.stdout.write\<close>\<close>

primrec sends :: "('q, 'a) event list \<Rightarrow> ('q \<times> 'a) list" where
  "sends [] = []"
| "sends (ev # evs) = (case ev of Send q a \<Rightarrow> (q, a) # sends evs | _ \<Rightarrow> sends evs)"

primrec waits :: "('q, 'a) event list \<Rightarrow> int list" where
  "waits [] = []"
| "waits (ev # evs) = (case ev of Wait ms \<Rightarrow> ms # waits evs | _ \<Rightarrow> waits evs)"

primrec callbacks :: "('q, 'a) event list \<Rightarrow> string list" where
  "callbacks [] = []"
| "callbacks (ev # evs) = (case ev of Callback s \<Rightarrow> s # callbacks evs | _ \<Rightarrow> callbacks evs)"

subsection \<open>Property reads\<close>

text \<open>
  The members of the runtime's \<open>Object.prototype\<close> that a plain object inherits: the
  functions with their \<open>length\<close>, and \<open>__proto__\<close>, which reads as \<open>Object.prototype\<close>
  itself, an object without \<open>length\<close>.
\<close>

datatype proto_member = Function nat | ProtoObject

definition object_prototype :: "(string \<times> proto_member) list" where
  "object_prototype =
     [(''constructor'', Function 1), (''hasOwnProperty'', Function 1),
      (''isPrototypeOf'', Function 1), (''propertyIsEnumerable'', Function 1),
      (''toLocaleString'', Function 0), (''toString'', Function 0),
      (''valueOf'', Function 0), (''__defineGetter__'', Function 2),
      (''__defineSetter__'', Function 2), (''__lookupGetter__'', Function 1),
      (''__lookupSetter__'', Function 1), (''__proto__'', ProtoObject)]"

text \<open>What \<open>obj[name]\<close> reads on a plain object with the own properties \<open>obj\<close>.\<close>

datatype 'v prop_value = Own 'v | Inherited proto_member | Undefined

definition read_prop :: "(string \<times> 'v) list \<Rightarrow> string \<Rightarrow> 'v prop_value" where
  "read_prop obj name =
     (case map_of obj name of
        Some v \<Rightarrow> Own v
      | None \<Rightarrow>
          (case map_of object_prototype name of
             Some m \<Rightarrow> Inherited m
           | None \<Rightarrow> Undefined))"

subsection \<open>Module settings\<close>

definition batchGetLimit :: nat where
  "batchGetLimit = 100"

definition batchWriteLimit :: nat where
  "batchWriteLimit = 25"

record settings =
  backoffInitial :: int
  backoffMax :: int
  backoffFactor :: int

definition defaults :: settings where
  "defaults = \<lparr>backoffInitial = 1000, backoffMax = 30000, backoffFactor = 2\<rparr>"



text \<open>
  The step of the backoff variable after a round that reported a residual:
  \<open>Math.min(backoff * backoffFactor, backoffMax)\<close>, in integers. The code multiplies
  doubles; the two agree while the product is an integer of size at most \<open>2 ^ 53\<close>.
\<close>

definition grow :: "settings \<Rightarrow> int \<Rightarrow> int" where
  "grow cfg backoff = min (backoff * backoffFactor cfg) (backoffMax cfg)"

subsection \<open>Requests and responses of the document client\<close>

record 'k KeysAndAttributes =
  Keys :: "'k list option"
  ConsistentRead :: "bool option"
  ProjectionExpression :: "string option"

record 'k BatchGetCommandInput =
  RequestItems :: "(string \<times> 'k KeysAndAttributes) list option"
  ReturnConsumedCapacity :: "string option"

record ('k, 'r) BatchGetCommandOutput =
  Responses :: "(string \<times> 'r list) list option"
  UnprocessedKeys :: "(string \<times> 'k KeysAndAttributes) list option"

datatype 'i WriteRequest = PutRequest 'i

type_synonym 'i BatchWriteCommandInput = "(string \<times> 'i WriteRequest list) list"

record 'i BatchWriteCommandOutput =
  UnprocessedItems :: "(string \<times> 'i WriteRequest list) list option"

record 'c ScanCommandInput =
  TableName :: "string option"
  FilterExpression :: "string option"
  ExclusiveStartKey :: "'c option"

record ('c, 'r) ScanCommandOutput =
  Items :: "'r list option"
  LastEvaluatedKey :: "'c option"

text \<open>
  The backend is a deterministic machine: \<open>send b request\<close> answers the request in backend
  state \<open>b\<close> with either a rejection \<open>Inl e\<close> or a response, and the next backend state.
\<close>

type_synonym ('b, 'q, 'e, 'a) backend = "'b \<Rightarrow> 'q \<Rightarrow> ('e + 'a) \<times> 'b"

subsection \<open>Number formatting\<close>

definition digit :: "nat \<Rightarrow> char" where
  "digit d = (''0123456789'' ! (d mod 10))"

fun toString :: "nat \<Rightarrow> string" where
  "toString n = (if n < 10 then [digit n] else toString (n div 10) @ [digit (n mod 10)])"

declare toString.simps [simp del]

section \<open>batchGetAll\<close>

text \<open>
  The variables of the retry loop: \<open>unprocessedKeys\<close> (the pending queue), \<open>results\<close>,
  \<open>backoff\<close>, and the world (backend state and trace).
\<close>

record ('k, 'r, 'b, 'e) get_state =
  unprocessedKeys :: "'k list"
  results :: "'r list"
  backoff :: int
  backend :: 'b
  trace :: "('k BatchGetCommandInput, 'e + ('k, 'r) BatchGetCommandOutput) event list"

text \<open>
  The request of one round: the caller's input with \<open>RequestItems\<close> replaced by the single
  table, whose other properties are kept and whose \<open>Keys\<close> are the chunk.
\<close>

definition get_request ::
  "'k BatchGetCommandInput \<Rightarrow> string \<Rightarrow> 'k list \<Rightarrow> 'k BatchGetCommandInput" where
  "get_request batchGetInput requestItemsTable chunk =
     (let old = (case RequestItems batchGetInput of
                   None \<Rightarrow> None
                 | Some ri \<Rightarrow> map_of ri requestItemsTable);
          entry = (case old of
                     None \<Rightarrow> \<lparr>Keys = Some chunk, ConsistentRead = None, ProjectionExpression = None\<rparr>
                   | Some ka \<Rightarrow> ka\<lparr>Keys := Some chunk\<rparr>)
      in batchGetInput\<lparr>RequestItems := Some [(requestItemsTable, entry)]\<rparr>)"

text \<open>
  One pass through the body of \<open>while (unprocessedKeys.length)\<close>. \<open>Inl (x, s)\<close> is an
  exception \<open>x\<close> leaving the function in state \<open>s\<close>; \<open>Inr s\<close> is the state at the end of
  the body. \<open>response.Responses![table]\<close> is spread into an array, which raises a
  \<open>TypeError\<close> for \<open>undefined\<close> and for an inherited member alike, neither being iterable.
  \<open>response.UnprocessedKeys[table]\<close> is tested for truth first: every inherited member is
  truthy and has no \<open>Keys\<close>, so reading \<open>Keys!.length\<close> on it raises.
\<close>

definition get_round ::
  "settings \<Rightarrow> ('b, 'k BatchGetCommandInput, 'e, ('k, 'r) BatchGetCommandOutput) backend \<Rightarrow>
   'k BatchGetCommandInput \<Rightarrow> string \<Rightarrow> ('k, 'r, 'b, 'e) get_state \<Rightarrow>
   ('e exn \<times> ('k, 'r, 'b, 'e) get_state) + ('k, 'r, 'b, 'e) get_state" where
  "get_round cfg send batchGetInput requestItemsTable st =
     (let n = min (length (unprocessedKeys st)) batchGetLimit;
          chunk = take n (unprocessedKeys st);
          rest = drop n (unprocessedKeys st);
          request = get_request batchGetInput requestItemsTable chunk;
          (answer, b) = send (backend st) request;
          st1 = st\<lparr>unprocessedKeys := rest, backend := b,
                   trace := trace st @ [Send request answer]\<rparr>
      in case answer of
           Inl e \<Rightarrow> Inl (Rejected e, st1)
         | Inr response \<Rightarrow>
             (case Responses response of
                None \<Rightarrow> Inl (TypeError, st1)
              | Some rs \<Rightarrow>
                  (case map_of rs requestItemsTable of
                     None \<Rightarrow> Inl (TypeError, st1)
                   | Some responseObjects \<Rightarrow>
                       (let st2 = st1\<lparr>results := results st1 @ responseObjects\<rparr>;
                            reset = st2\<lparr>backoff := backoffInitial cfg\<rparr>
                        in case UnprocessedKeys response of
                             None \<Rightarrow> Inr reset
                           | Some uk \<Rightarrow>
                               (case read_prop uk requestItemsTable of
                                  Undefined \<Rightarrow> Inr reset
                                | Inherited m \<Rightarrow> Inl (TypeError, st2)
                                | Own ka \<Rightarrow>
                                    (case Keys ka of
                                       None \<Rightarrow> Inl (TypeError, st2)
                                     | Some ks \<Rightarrow>
                                         if length ks \<noteq> 0
                                         then Inr (st2\<lparr>unprocessedKeys := ks @ rest,
                                                      trace := trace st2 @ [Wait (backoff st2)],
                                                      backoff := grow cfg (backoff st2)\<rparr>)
                                         else Inr reset))))))"

text \<open>
  The loop, with fuel: \<open>None\<close> means that the loop has not ended within \<open>fuel\<close> rounds.
  The source has no bound on the number of rounds.
\<close>

fun get_loop ::
  "nat \<Rightarrow> settings \<Rightarrow> ('b, 'k BatchGetCommandInput, 'e, ('k, 'r) BatchGetCommandOutput) backend \<Rightarrow>
   'k BatchGetCommandInput \<Rightarrow> string \<Rightarrow> ('k, 'r, 'b, 'e) get_state \<Rightarrow>
   (('e exn \<times> ('k, 'r, 'b, 'e) get_state) + ('k, 'r, 'b, 'e) get_state) option" where
  "get_loop fuel cfg send batchGetInput requestItemsTable st =
     (if length (unprocessedKeys st) = 0 then Some (Inr st)
      else case fuel of
             0 \<Rightarrow> None
           | Suc fuel' \<Rightarrow>
               (case get_round cfg send batchGetInput requestItemsTable st of
                  Inl err \<Rightarrow> Some (Inl err)
                | Inr st' \<Rightarrow> get_loop fuel' cfg send batchGetInput requestItemsTable st'))"

declare get_loop.simps [simp del]

text \<open>The state after exactly \<open>n\<close> completed rounds, when the loop gets that far.\<close>

fun get_after ::
  "nat \<Rightarrow> settings \<Rightarrow> ('b, 'k BatchGetCommandInput, 'e, ('k, 'r) BatchGetCommandOutput) backend \<Rightarrow>
   'k BatchGetCommandInput \<Rightarrow> string \<Rightarrow> ('k, 'r, 'b, 'e) get_state \<Rightarrow>
   ('k, 'r, 'b, 'e) get_state option" where
  "get_after 0 cfg send batchGetInput requestItemsTable st = Some st"
| "get_after (Suc n) cfg send batchGetInput requestItemsTable st =
     (if length (unprocessedKeys st) = 0 then None
      else case get_round cfg send batchGetInput requestItemsTable st of
             Inl err \<Rightarrow> None
           | Inr st' \<Rightarrow> get_after n cfg send batchGetInput requestItemsTable st')"

definition single_table_get :: string where
  "single_table_get = ''Only batchGet from a single table at a time is supported in this method.''"

text \<open>The loop variables as they are when the loop is entered.\<close>

definition get_init :: "settings \<Rightarrow> 'k list \<Rightarrow> 'b \<Rightarrow> ('k, 'r, 'b, 'e) get_state" where
  "get_init cfg ks b =
     \<lparr>unprocessedKeys = ks, results = [], backoff = backoffInitial cfg, backend = b, trace = []\<rparr>"

text \<open>
  The result of a call: the value or exception, the backend state and the trace.
  \<open>Logger.debug\<close> is the module's private no-op and leaves no event.
\<close>

definition batchGetAll ::
  "nat \<Rightarrow> settings \<Rightarrow> ('b, 'k BatchGetCommandInput, 'e, ('k, 'r) BatchGetCommandOutput) backend \<Rightarrow>
   'k BatchGetCommandInput \<Rightarrow> 'b \<Rightarrow>
   (('e exn + 'r list) \<times> 'b \<times>
    ('k BatchGetCommandInput, 'e + ('k, 'r) BatchGetCommandOutput) event list) option" where
  "batchGetAll fuel cfg send batchGetInput b =
     (case RequestItems batchGetInput of
        None \<Rightarrow> Some (Inr [], b, [])
      | Some ri \<Rightarrow>
          (let requestItemsTables = map fst ri
           in if length requestItemsTables \<noteq> 1 then Some (Inl (Error single_table_get), b, [])
              else
                (let requestItemsTable = requestItemsTables ! 0
                 in case map_of ri requestItemsTable of
                      None \<Rightarrow> Some (Inl TypeError, b, [])
                    | Some ka \<Rightarrow>
                        (case Keys ka of
                           None \<Rightarrow> Some (Inl TypeError, b, [])
                         | Some ks \<Rightarrow>
                             (case get_loop fuel cfg send batchGetInput requestItemsTable
                                     (get_init cfg ks b) of
                                None \<Rightarrow> None
                              | Some (Inl (x, st)) \<Rightarrow> Some (Inl x, backend st, trace st)
                              | Some (Inr st) \<Rightarrow> Some (Inr (results st), backend st, trace st))))))"

section \<open>batchPutAll\<close>

record ('i, 'b, 'e) put_state =
  unprocessedItems :: "'i WriteRequest list"
  put_backoff :: int
  put_backend :: 'b
  put_trace :: "('i BatchWriteCommandInput, 'e + 'i BatchWriteCommandOutput) event list"

primrec join :: "string \<Rightarrow> string list \<Rightarrow> string" where
  "join sep [] = []"
| "join sep (x # xs) = (case xs of [] \<Rightarrow> x | _ \<Rightarrow> x @ sep @ join sep xs)"

text \<open>
  The line that the \<open>catch\<close> handler of a rejected write prints. \<open>stringify\<close> is
  \<open>JSON.stringify\<close> on a write request: \<open>None\<close> where it raises (a \<open>BigInt\<close> attribute, a
  cyclic value), in which case the handler itself raises a \<open>TypeError\<close>. \<open>showError\<close>
  is the string conversion of the rejection inside the template literal.
\<close>

definition not_writing ::
  "('i WriteRequest \<Rightarrow> string option) \<Rightarrow> ('e \<Rightarrow> string) \<Rightarrow> 'i WriteRequest list \<Rightarrow> 'e \<Rightarrow>
   string option" where
  "not_writing stringify showError failedItems e =
     (case those (map stringify failedItems) of
        None \<Rightarrow> None
      | Some strs \<Rightarrow>
          Some (''Not writing '' @ join [CHR 0x0A] (map (take 20) strs) @ [CHR 0x0A] @
                '' > failed with '' @ showError e))"

text \<open>
  One pass through the body of \<open>while (unprocessedItems.length)\<close>. The progress
  callback runs after the chunk has been spliced off the queue and before the call; a
  rejected call goes through the \<open>catch\<close> handler, whose \<open>undefined\<close> makes the round end
  in the branch that resets the backoff. \<open>response.UnprocessedItems[table]\<close> may read an
  inherited member: a function of \<open>length\<close> 0 and \<open>Object.prototype\<close> fail the test of
  \<open>length\<close>, a function of positive \<open>length\<close> passes it and raises a \<open>TypeError\<close> when it
  is spread into \<open>unshift\<close>.
\<close>

definition put_round ::
  "settings \<Rightarrow> ('b, 'i BatchWriteCommandInput, 'e, 'i BatchWriteCommandOutput) backend \<Rightarrow>
   ('i WriteRequest \<Rightarrow> string option) \<Rightarrow> ('e \<Rightarrow> string) \<Rightarrow> string \<Rightarrow> bool \<Rightarrow>
   ('i, 'b, 'e) put_state \<Rightarrow>
   ('e exn \<times> ('i, 'b, 'e) put_state) + ('i, 'b, 'e) put_state" where
  "put_round cfg send stringify showError requestItemsTable logCallback st =
     (let n = min (length (unprocessedItems st)) batchWriteLimit;
          chunk = take n (unprocessedItems st);
          rest = drop n (unprocessedItems st);
          request = [(requestItemsTable, chunk)];
          progress = (if logCallback then [Callback (toString (length rest))] else []);
          (answer, b) = send (put_backend st) request;
          st1 = st\<lparr>unprocessedItems := rest, put_backend := b,
                   put_trace := put_trace st @ progress @ [Send request answer]\<rparr>;
          reset = st1\<lparr>put_backoff := backoffInitial cfg\<rparr>
      in case answer of
           Inl e \<Rightarrow>
             (case not_writing stringify showError chunk e of
                None \<Rightarrow> Inl (TypeError, st1)
              | Some line \<Rightarrow>
                  Inr (st1\<lparr>put_trace := put_trace st1 @ [Console line],
                           put_backoff := backoffInitial cfg\<rparr>))
         | Inr response \<Rightarrow>
             (case UnprocessedItems response of
                None \<Rightarrow> Inr reset
              | Some ui \<Rightarrow>
                  (case read_prop ui requestItemsTable of
                     Undefined \<Rightarrow> Inr reset
                   | Inherited ProtoObject \<Rightarrow> Inr reset
                   | Inherited (Function arity) \<Rightarrow>
                       if arity \<noteq> 0 then Inl (TypeError, st1) else Inr reset
                   | Own us \<Rightarrow>
                       if length us \<noteq> 0
                       then Inr (st1\<lparr>unprocessedItems := us @ rest,
                                    put_trace := put_trace st1 @ [Wait (put_backoff st1)],
                                    put_backoff := grow cfg (put_backoff st1)\<rparr>)
                       else Inr reset)))"

fun put_loop ::
  "nat \<Rightarrow> settings \<Rightarrow> ('b, 'i BatchWriteCommandInput, 'e, 'i BatchWriteCommandOutput) backend \<Rightarrow>
   ('i WriteRequest \<Rightarrow> string option) \<Rightarrow> ('e \<Rightarrow> string) \<Rightarrow> string \<Rightarrow> bool \<Rightarrow>
   ('i, 'b, 'e) put_state \<Rightarrow>
   (('e exn \<times> ('i, 'b, 'e) put_state) + ('i, 'b, 'e) put_state) option" where
  "put_loop fuel cfg send stringify showError requestItemsTable logCallback st =
     (if length (unprocessedItems st) = 0 then Some (Inr st)
      else case fuel of
             0 \<Rightarrow> None
           | Suc fuel' \<Rightarrow>
               (case put_round cfg send stringify showError requestItemsTable logCallback st of
                  Inl err \<Rightarrow> Some (Inl err)
                | Inr st' \<Rightarrow>
                    put_loop fuel' cfg send stringify showError requestItemsTable logCallback st'))"

declare put_loop.simps [simp del]

fun put_after ::
  "nat \<Rightarrow> settings \<Rightarrow> ('b, 'i BatchWriteCommandInput, 'e, 'i BatchWriteCommandOutput) backend \<Rightarrow>
   ('i WriteRequest \<Rightarrow> string option) \<Rightarrow> ('e \<Rightarrow> string) \<Rightarrow> string \<Rightarrow> bool \<Rightarrow>
   ('i, 'b, 'e) put_state \<Rightarrow> ('i, 'b, 'e) put_state option" where
  "put_after 0 cfg send stringify showError requestItemsTable logCallback st = Some st"
| "put_after (Suc n) cfg send stringify showError requestItemsTable logCallback st =
     (if length (unprocessedItems st) = 0 then None
      else case put_round cfg send stringify showError requestItemsTable logCallback st of
             Inl err \<Rightarrow> None
           | Inr st' \<Rightarrow> put_after n cfg send stringify showError requestItemsTable logCallback st')"

definition single_table_write :: string where
  "single_table_write =
     ''Only batchWrite to a single table at a time is supported in this method.''"

definition put_init ::
  "settings \<Rightarrow> 'i WriteRequest list \<Rightarrow> 'b \<Rightarrow>
   ('i BatchWriteCommandInput, 'e + 'i BatchWriteCommandOutput) event list \<Rightarrow>
   ('i, 'b, 'e) put_state" where
  "put_init cfg ws b tr =
     \<lparr>unprocessedItems = ws, put_backoff = backoffInitial cfg, put_backend = b, put_trace = tr\<rparr>"

text \<open>
  The function from the point where \<open>input\<close> has been built (the single-table check and
  the loop), for any \<open>RequestItems\<close> map and any trace so far.
\<close>

definition batchPutAll_input ::
  "nat \<Rightarrow> settings \<Rightarrow> ('b, 'i BatchWriteCommandInput, 'e, 'i BatchWriteCommandOutput) backend \<Rightarrow>
   ('i WriteRequest \<Rightarrow> string option) \<Rightarrow> ('e \<Rightarrow> string) \<Rightarrow> 'i BatchWriteCommandInput \<Rightarrow>
   bool \<Rightarrow> 'b \<Rightarrow> ('i BatchWriteCommandInput, 'e + 'i BatchWriteCommandOutput) event list \<Rightarrow>
   (('e exn + unit) \<times> 'b \<times>
    ('i BatchWriteCommandInput, 'e + 'i BatchWriteCommandOutput) event list) option" where
  "batchPutAll_input fuel cfg send stringify showError requestItems logCallback b tr =
     (let requestItemsTables = map fst requestItems
      in if length requestItemsTables \<noteq> 1 then Some (Inl (Error single_table_write), b, tr)
         else
           (let requestItemsTable = requestItemsTables ! 0
            in case map_of requestItems requestItemsTable of
                 None \<Rightarrow> Some (Inl TypeError, b, tr)
               | Some ws \<Rightarrow>
                   (case put_loop fuel cfg send stringify showError requestItemsTable logCallback
                           (put_init cfg ws b tr) of
                      None \<Rightarrow> None
                    | Some (Inl (x, st)) \<Rightarrow> Some (Inl x, put_backend st, put_trace st)
                    | Some (Inr st) \<Rightarrow> Some (Inr (), put_backend st, put_trace st))))"

definition batchPutAll ::
  "nat \<Rightarrow> settings \<Rightarrow> ('b, 'i BatchWriteCommandInput, 'e, 'i BatchWriteCommandOutput) backend \<Rightarrow>
   ('i WriteRequest \<Rightarrow> string option) \<Rightarrow> ('e \<Rightarrow> string) \<Rightarrow> string \<Rightarrow> 'i list \<Rightarrow> bool \<Rightarrow> 'b \<Rightarrow>
   (('e exn + unit) \<times> 'b \<times>
    ('i BatchWriteCommandInput, 'e + 'i BatchWriteCommandOutput) event list) option" where
  "batchPutAll fuel cfg send stringify showError table items logCallback b =
     batchPutAll_input fuel cfg send stringify showError [(table, map PutRequest items)]
       logCallback b (if logCallback then [Callback ''starting batch write''] else [])"

section \<open>batchScanAll\<close>

record ('c, 'r, 'b, 'e) scan_state =
  scan_input :: "'c ScanCommandInput"
  scan_results :: "'r list"
  lastEvalKey :: "'c option"
  scan_backend :: 'b
  scan_trace :: "('c ScanCommandInput, 'e + ('c, 'r) ScanCommandOutput) event list"

text \<open>One pass through the body of the \<open>do ... while\<close>.\<close>

definition scan_round ::
  "('b, 'c ScanCommandInput, 'e, ('c, 'r) ScanCommandOutput) backend \<Rightarrow>
   ('c, 'r, 'b, 'e) scan_state \<Rightarrow>
   ('e exn \<times> ('c, 'r, 'b, 'e) scan_state) + ('c, 'r, 'b, 'e) scan_state" where
  "scan_round send st =
     (let input = (case lastEvalKey st of
                     None \<Rightarrow> scan_input st
                   | Some k \<Rightarrow> (scan_input st)\<lparr>ExclusiveStartKey := Some k\<rparr>);
          (answer, b) = send (scan_backend st) input;
          st1 = st\<lparr>scan_input := input, scan_backend := b,
                   scan_trace := scan_trace st @ [Send input answer]\<rparr>
      in case answer of
           Inl e \<Rightarrow> Inl (Rejected e, st1)
         | Inr result \<Rightarrow>
             Inr (st1\<lparr>scan_results :=
                        scan_results st1 @ (case Items result of None \<Rightarrow> [] | Some xs \<Rightarrow> xs),
                      scan_trace := scan_trace st1 @
                        [Stdout (''-'' @ (case Items result of
                                          None \<Rightarrow> ''undefined''
                                        | Some xs \<Rightarrow> toString (length xs)) @ [CHR 0x0D])],
                      lastEvalKey := LastEvaluatedKey result\<rparr>))"

fun scan_loop ::
  "nat \<Rightarrow> ('b, 'c ScanCommandInput, 'e, ('c, 'r) ScanCommandOutput) backend \<Rightarrow>
   ('c, 'r, 'b, 'e) scan_state \<Rightarrow>
   (('e exn \<times> ('c, 'r, 'b, 'e) scan_state) + ('c, 'r, 'b, 'e) scan_state) option" where
  "scan_loop 0 send st = None"
| "scan_loop (Suc fuel) send st =
     (case scan_round send st of
        Inl err \<Rightarrow> Some (Inl err)
      | Inr st' \<Rightarrow>
          (case lastEvalKey st' of
             None \<Rightarrow> Some (Inr st')
           | Some k \<Rightarrow> scan_loop fuel send st'))"

definition batchScanAll ::
  "nat \<Rightarrow> ('b, 'c ScanCommandInput, 'e, ('c, 'r) ScanCommandOutput) backend \<Rightarrow>
   'c ScanCommandInput \<Rightarrow> 'b \<Rightarrow>
   (('e exn + 'r list) \<times> 'b \<times>
    ('c ScanCommandInput, 'e + ('c, 'r) ScanCommandOutput) event list) option" where
  "batchScanAll fuel send input b =
     (let st0 = \<lparr>scan_input = input, scan_results = [], lastEvalKey = None, scan_backend = b,
                 scan_trace = [Console (''getting all items for '' @
                                 (case TableName input of None \<Rightarrow> ''undefined'' | Some t \<Rightarrow> t))]\<rparr>
      in case scan_loop fuel send st0 of
           None \<Rightarrow> None
         | Some (Inl (x, st)) \<Rightarrow> Some (Inl x, scan_backend st, scan_trace st)
         | Some (Inr st) \<Rightarrow>
             Some (Inr (scan_results st), scan_backend st,
                   scan_trace st @
                     [Console (''total items: '' @ toString (length (scan_results st)))]))"

section \<open>What a trace tells\<close>

text \<open>
  Readers of a round's request and answer, used to state the properties: the chunk a
  request carries, the records an answer returns, and the residual an answer reports
  (the unprocessed keys or items that the helper puts back in front of its queue; a
  rejected call reports none).
\<close>

definition request_keys :: "string \<Rightarrow> 'k BatchGetCommandInput \<Rightarrow> 'k list" where
  "request_keys t q =
     (case RequestItems q of
        None \<Rightarrow> []
      | Some ri \<Rightarrow>
          (case map_of ri t of
             None \<Rightarrow> []
           | Some ka \<Rightarrow> (case Keys ka of None \<Rightarrow> [] | Some ks \<Rightarrow> ks)))"



definition request_items :: "string \<Rightarrow> 'i BatchWriteCommandInput \<Rightarrow> 'i WriteRequest list" where
  "request_items t q = (case map_of q t of None \<Rightarrow> [] | Some ws \<Rightarrow> ws)"

definition put_residual :: "string \<Rightarrow> 'e + 'i BatchWriteCommandOutput \<Rightarrow> 'i WriteRequest list" where
  "put_residual t a =
     (case a of
        Inl e \<Rightarrow> []
      | Inr response \<Rightarrow>
          (case UnprocessedItems response of
             None \<Rightarrow> []
           | Some ui \<Rightarrow> (case map_of ui t of None \<Rightarrow> [] | Some us \<Rightarrow> us)))"

definition scan_items :: "'e + ('c, 'r) ScanCommandOutput \<Rightarrow> 'r list" where
  "scan_items a =
     (case a of
        Inl e \<Rightarrow> []
      | Inr result \<Rightarrow> (case Items result of None \<Rightarrow> [] | Some xs \<Rightarrow> xs))"


text \<open>The state in which a round ends, whether it raised or not.\<close>

definition state_of :: "('x \<times> 's) + 's \<Rightarrow> 's" where
  "state_of r = (case r of Inl (x, s) \<Rightarrow> s | Inr s \<Rightarrow> s)"








subsection \<open>The backoff sequence as the specification words it\<close>



subsection \<open>The cursor chain of a scan\<close>

text \<open>
  The calls of a scan, read off the specification: there is a first call, every call
  carries the request built so far, a returned cursor becomes the \<open>ExclusiveStartKey\<close> of
  the next call, and the calls end with the first answer that has no cursor (or that is
  a rejection).
\<close>

fun scan_chain ::
  "'c ScanCommandInput \<Rightarrow> ('c ScanCommandInput \<times> ('e + ('c, 'r) ScanCommandOutput)) list \<Rightarrow> bool" where
  "scan_chain cur [] = False"
| "scan_chain cur ((q, a) # calls) =
     (q = cur \<and>
      (case a of
         Inl e \<Rightarrow> calls = []
       | Inr result \<Rightarrow>
           (case LastEvaluatedKey result of
              None \<Rightarrow> calls = []
            | Some k \<Rightarrow> scan_chain (cur\<lparr>ExclusiveStartKey := Some k\<rparr>) calls)))"

text \<open>
  A backend serves a scan of the pages \<open>rs\<close> from state \<open>b\<close> and request \<open>q\<close> when it
  answers \<open>q\<close> with the first page, every page but the last carries a cursor and the
  request with that cursor is answered with the next page, and the last page, which has
  no cursor, leaves the backend in state \<open>b'\<close>.
\<close>

fun scan_serves ::
  "('b, 'c ScanCommandInput, 'e, ('c, 'r) ScanCommandOutput) backend \<Rightarrow> 'b \<Rightarrow>
   'c ScanCommandInput \<Rightarrow> ('c, 'r) ScanCommandOutput list \<Rightarrow> 'b \<Rightarrow> bool" where
  "scan_serves send b q [] b' = False"
| "scan_serves send b q (r # rs) b' =
     (case send b q of
        (Inl e, b1) \<Rightarrow> False
      | (Inr result, b1) \<Rightarrow>
          result = r \<and>
          (case LastEvaluatedKey r of
             None \<Rightarrow> rs = [] \<and> b1 = b'
           | Some k \<Rightarrow> rs \<noteq> [] \<and> scan_serves send b1 (q\<lparr>ExclusiveStartKey := Some k\<rparr>) rs b'))"

section \<open>Backends and inputs for concrete runs\<close>

text \<open>
  A backend that plays a script of answers and rejections, whatever the request, then a
  default answer.
\<close>

definition scripted :: "'a \<Rightarrow> (('e + 'a) list, 'q, 'e, 'a) backend" where
  "scripted dflt b q = (case b of [] \<Rightarrow> (Inr dflt, []) | a # as \<Rightarrow> (a, as))"

text \<open>A backend that gives every call the same answer.\<close>

definition answering :: "'a \<Rightarrow> (unit, 'q, 'e, 'a) backend" where
  "answering a b q = (Inr a, b)"

text \<open>A backend that rejects every call with the same error.\<close>

definition rejecting :: "'e \<Rightarrow> (unit, 'q, 'e, 'a) backend" where
  "rejecting e b q = (Inl e, b)"

definition keys_of :: "'k list \<Rightarrow> 'k KeysAndAttributes" where
  "keys_of ks = \<lparr>Keys = Some ks, ConsistentRead = None, ProjectionExpression = None\<rparr>"

definition get_input :: "(string \<times> 'k KeysAndAttributes) list \<Rightarrow> 'k BatchGetCommandInput" where
  "get_input ri = \<lparr>RequestItems = Some ri, ReturnConsumedCapacity = None\<rparr>"

text \<open>A get answer for table \<open>t\<close>: the records found and the keys left unprocessed.\<close>

definition get_answer :: "string \<Rightarrow> 'r list \<Rightarrow> 'k list \<Rightarrow> ('k, 'r) BatchGetCommandOutput" where
  "get_answer t rs ks = \<lparr>Responses = Some [(t, rs)], UnprocessedKeys = Some [(t, keys_of ks)]\<rparr>"

definition put_answer :: "string \<Rightarrow> 'i WriteRequest list \<Rightarrow> 'i BatchWriteCommandOutput" where
  "put_answer t us = \<lparr>UnprocessedItems = Some [(t, us)]\<rparr>"

definition scan_answer :: "'r list \<Rightarrow> 'c option \<Rightarrow> ('c, 'r) ScanCommandOutput" where
  "scan_answer xs k = \<lparr>Items = Some xs, LastEvaluatedKey = k\<rparr>"

definition scan_request :: "string \<Rightarrow> 'c option \<Rightarrow> 'c ScanCommandInput" where
  "scan_request t k = \<lparr>TableName = Some t, FilterExpression = None, ExclusiveStartKey = k\<rparr>"

section \<open>Lemmas about the get loop\<close>

lemma sends_append [simp]: "sends (xs @ ys) = sends xs @ sends ys"
  by (induction xs) (auto split: event.splits)

lemma waits_append [simp]: "waits (xs @ ys) = waits xs @ waits ys"
  by (induction xs) (auto split: event.splits)

lemma callbacks_append [simp]: "callbacks (xs @ ys) = callbacks xs @ callbacks ys"
  by (induction xs) (auto split: event.splits)

lemma request_keys_get_request [simp]:
  "request_keys t (get_request inp t chunk) = chunk"
  by (simp add: request_keys_def get_request_def Let_def split: option.splits)


lemma get_round_Inl:
  assumes "get_round cfg send inp t st = Inl (x, st')"
  defines "n \<equiv> min (length (unprocessedKeys st)) batchGetLimit"
  defines "q \<equiv> get_request inp t (take n (unprocessedKeys st))"
  defines "a \<equiv> fst (send (backend st) q)"
  shows "trace st' = trace st @ [Send q a]"
    and "backend st' = snd (send (backend st) q)"
    and "backoff st' = backoff st"
    and "(\<exists>e. a = Inl e \<and> x = Rejected e) \<or> (\<exists>r. a = Inr r \<and> x = TypeError)"
  using assms(1) unfolding n_def q_def a_def
  by (auto simp: get_round_def Let_def read_prop_def
      split: prod.splits sum.splits option.splits if_splits)



lemma get_loop_Inl:
  "get_loop fuel cfg send inp t st0 = Some (Inl (x, s)) \<Longrightarrow>
   \<exists>n st. get_after n cfg send inp t st0 = Some st \<and> unprocessedKeys st \<noteq> [] \<and>
          get_round cfg send inp t st = Inl (x, s)"
proof (induction fuel arbitrary: st0)
  case 0
  then show ?case by (simp add: get_loop.simps split: if_splits)
next
  case (Suc fuel)
  from Suc.prems have ne: "unprocessedKeys st0 \<noteq> []"
    by (auto simp: get_loop.simps split: if_splits)
  show ?case
  proof (cases "get_round cfg send inp t st0")
    case (Inl err)
    with Suc.prems ne have "err = (x, s)" by (simp add: get_loop.simps)
    with Inl ne have "get_after 0 cfg send inp t st0 = Some st0 \<and> unprocessedKeys st0 \<noteq> [] \<and>
        get_round cfg send inp t st0 = Inl (x, s)" by simp
    then show ?thesis by blast
  next
    case (Inr st1)
    with Suc.prems ne have "get_loop fuel cfg send inp t st1 = Some (Inl (x, s))"
      by (simp add: get_loop.simps)
    from Suc.IH [OF this] obtain n st where "get_after n cfg send inp t st1 = Some st"
      and k: "unprocessedKeys st \<noteq> []" "get_round cfg send inp t st = Inl (x, s)" by blast
    with Inr ne have "get_after (Suc n) cfg send inp t st0 = Some st" by simp
    with k show ?thesis by blast
  qed
qed











section \<open>Lemmas about the put loop\<close>

lemma request_items_single [simp]: "request_items t [(t, chunk)] = chunk"
  by (simp add: request_items_def)

text \<open>What a round that completes does to every loop variable.\<close>

lemma put_round_Inr:
  assumes "put_round cfg send stringify showError t cb st = Inr st'"
  defines "n \<equiv> min (length (unprocessedItems st)) batchWriteLimit"
  defines "q \<equiv> [(t, take n (unprocessedItems st))]"
  defines "a \<equiv> fst (send (put_backend st) q)"
  shows "unprocessedItems st' = put_residual t a @ drop n (unprocessedItems st)"
    and "put_backend st' = snd (send (put_backend st) q)"
    and "put_backoff st' =
           (if put_residual t a \<noteq> [] then grow cfg (put_backoff st) else backoffInitial cfg)"
    and "sends (put_trace st') = sends (put_trace st) @ [(q, a)]"
    and "waits (put_trace st') =
           waits (put_trace st) @ (if put_residual t a \<noteq> [] then [put_backoff st] else [])"
    and "callbacks (put_trace st') = callbacks (put_trace st) @
           (if cb then [toString (length (drop n (unprocessedItems st)))] else [])"
  using assms(1) unfolding n_def q_def a_def
  by (auto simp: put_round_def Let_def put_residual_def read_prop_def
      split: prod.splits sum.splits option.splits if_splits proto_member.splits)

text \<open>The events of a round in their order: progress callback, call, and what follows the call.\<close>

lemma put_round_events:
  defines "n \<equiv> \<lambda>st. min (length (unprocessedItems st)) batchWriteLimit"
  shows "\<exists>a after. put_trace (state_of (put_round cfg send stringify showError t cb st)) =
     put_trace st @ (if cb then [Callback (toString (length (drop (n st) (unprocessedItems st))))] else []) @
       [Send [(t, take (n st) (unprocessedItems st))] a] @ after \<and>
     sends after = [] \<and> callbacks after = []"
  unfolding n_def
  by (auto simp: put_round_def Let_def state_of_def read_prop_def
      split: prod.splits sum.splits option.splits if_splits proto_member.splits)

lemma put_round_Inl:
  assumes "put_round cfg send stringify showError t cb st = Inl (x, st')"
  defines "n \<equiv> min (length (unprocessedItems st)) batchWriteLimit"
  defines "q \<equiv> [(t, take n (unprocessedItems st))]"
  shows "x = TypeError"
    and "(\<exists>e. fst (send (put_backend st) q) = Inl e \<and>
              not_writing stringify showError (take n (unprocessedItems st)) e = None) \<or>
         (\<exists>r m. fst (send (put_backend st) q) = Inr r \<and>
              map_of object_prototype t = Some (Function m) \<and> 0 < m)"
  using assms(1) unfolding n_def q_def
  by (auto simp: put_round_def Let_def read_prop_def
      split: prod.splits sum.splits option.splits if_splits proto_member.splits)

lemma put_loop_Inr:
  "put_loop fuel cfg send stringify showError t cb st0 = Some (Inr st) \<Longrightarrow>
   \<exists>n. put_after n cfg send stringify showError t cb st0 = Some st \<and> unprocessedItems st = []"
proof (induction fuel arbitrary: st0)
  case 0
  then have "st = st0 \<and> unprocessedItems st0 = []"
    by (simp add: put_loop.simps split: if_splits)
  then have "put_after 0 cfg send stringify showError t cb st0 = Some st \<and>
      unprocessedItems st = []" by simp
  then show ?case by blast
next
  case (Suc fuel)
  show ?case
  proof (cases "unprocessedItems st0 = []")
    case True
    with Suc.prems have "put_after 0 cfg send stringify showError t cb st0 = Some st \<and>
        unprocessedItems st = []"
      by (simp add: put_loop.simps)
    then show ?thesis by blast
  next
    case False
    with Suc.prems obtain st1 where
      r: "put_round cfg send stringify showError t cb st0 = Inr st1"
      and l: "put_loop fuel cfg send stringify showError t cb st1 = Some (Inr st)"
      by (auto simp: put_loop.simps split: sum.splits)
    from Suc.IH [OF l] obtain n where
      "put_after n cfg send stringify showError t cb st1 = Some st"
      and e: "unprocessedItems st = []" by blast
    with r False have "put_after (Suc n) cfg send stringify showError t cb st0 = Some st"
      by simp
    with e show ?thesis by blast
  qed
qed

lemma put_after_sends:
  "put_after n cfg send stringify showError t cb st0 = Some st \<Longrightarrow>
   \<exists>ext. sends (put_trace st) = sends (put_trace st0) @ ext \<and> length ext = n"
proof (induction n arbitrary: st0)
  case 0
  then show ?case by simp
next
  case (Suc n)
  then obtain st1 where r: "put_round cfg send stringify showError t cb st0 = Inr st1"
    and a: "put_after n cfg send stringify showError t cb st1 = Some st"
    by (auto split: if_splits sum.splits)
  from Suc.IH [OF a] obtain ext where "sends (put_trace st) = sends (put_trace st1) @ ext"
    "length ext = n" by blast
  then show ?case
    by (simp add: put_round_Inr(4) [OF r])
qed

lemma put_round_trace:
  assumes "put_round cfg send stringify showError t cb st = Inr st'"
  defines "n \<equiv> min (length (unprocessedItems st)) batchWriteLimit"
  defines "q \<equiv> [(t, take n (unprocessedItems st))]"
  defines "a \<equiv> fst (send (put_backend st) q)"
  shows "\<exists>ext. put_trace st' = put_trace st @ ext \<and> sends ext = [(q, a)] \<and>
           waits ext = (if put_residual t a \<noteq> [] then [put_backoff st] else []) \<and>
           callbacks ext = (if cb then [toString (length (drop n (unprocessedItems st)))] else [])"
  using assms(1) unfolding n_def q_def a_def
  by (auto simp: put_round_def Let_def put_residual_def read_prop_def
      split: prod.splits sum.splits option.splits if_splits proto_member.splits)




lemma put_after_callbacks:
  "put_after n cfg send stringify showError t True st0 = Some st \<Longrightarrow>
   \<exists>ext. put_trace st = put_trace st0 @ ext \<and> length (callbacks ext) = length (sends ext)"
proof (induction n arbitrary: st0)
  case 0
  then show ?case by simp
next
  case (Suc n)
  then obtain st1 where r: "put_round cfg send stringify showError t True st0 = Inr st1"
    and a: "put_after n cfg send stringify showError t True st1 = Some st"
    by (auto split: if_splits sum.splits)
  from put_round_trace [OF r] obtain ext0 where e0: "put_trace st1 = put_trace st0 @ ext0"
    "length (callbacks ext0) = length (sends ext0)" by auto
  from Suc.IH [OF a] obtain ext where e: "put_trace st = put_trace st1 @ ext"
    "length (callbacks ext) = length (sends ext)" by blast
  have "put_trace st = put_trace st0 @ (ext0 @ ext)"
    by (simp add: e(1) e0(1))
  moreover have "length (callbacks (ext0 @ ext)) = length (sends (ext0 @ ext))"
    by (simp add: e(2) e0(2))
  ultimately show ?case by blast
qed

section \<open>Single-table check\<close>

lemma get_round_no_Error: "get_round cfg send inp t st \<noteq> Inl (Error m, s)"
  using get_round_Inl(4) [of cfg send inp t st "Error m" s] by auto

lemma get_loop_no_Error:
  "get_loop fuel cfg send inp t st0 \<noteq> Some (Inl (Error m, s))"
  using get_loop_Inl [of fuel cfg send inp t st0 "Error m" s] get_round_no_Error
  by blast

text \<open>
  C10. A \<open>RequestItems\<close> map that is present but has no table name makes \<open>batchGetAll\<close>
  throw the single-table error, with the backend untouched and no event; an absent
  \<open>RequestItems\<close> returns the empty list instead. The check demands exactly one table
  name: the single-table error is the outcome exactly when the number of names is not 1.
\<close>

theorem batchGetAll_zero_tables:
  "batchGetAll fuel cfg send (inp\<lparr>RequestItems := Some []\<rparr>) b =
     Some (Inl (Error single_table_get), b, []) \<and>
   batchGetAll fuel cfg send (inp\<lparr>RequestItems := None\<rparr>) b = Some (Inr [], b, []) \<and>
   ((\<exists>w. batchGetAll fuel cfg send (inp\<lparr>RequestItems := Some ri\<rparr>) b =
          Some (Inl (Error single_table_get), w)) = (length ri \<noteq> 1))"
proof -
  have "\<not> (\<exists>w. batchGetAll fuel cfg send (inp\<lparr>RequestItems := Some ri\<rparr>) b =
          Some (Inl (Error single_table_get), w))" if "length ri = 1"
    using that
    by (auto simp: batchGetAll_def Let_def get_loop_no_Error
        split: option.splits sum.splits prod.splits)
  moreover have "batchGetAll fuel cfg send (inp\<lparr>RequestItems := Some ri\<rparr>) b =
          Some (Inl (Error single_table_get), b, [])" if "length ri \<noteq> 1"
    using that by (simp add: batchGetAll_def)
  ultimately show ?thesis
    by (auto simp: batchGetAll_def)
qed

text \<open>
  C4. A get request whose \<open>RequestItems\<close> map has two or more table names fails with the
  single-table error of \<open>batchGetAll\<close>; so does the write path for a \<open>RequestItems\<close> map
  with two or more table names. In both the backend state is the one before the call and
  the trace has gained no event: no backend call was issued. (\<open>batchPutAll\<close> itself
  builds its map from the one \<open>table\<close> argument.)
\<close>

theorem multi_table_rejected:
  "batchGetAll fuel cfg send (inp\<lparr>RequestItems := Some (x # y # ri)\<rparr>) b =
     Some (Inl (Error single_table_get), b, []) \<and>
   batchPutAll_input fuel cfg send' stringify showError (x' # y' # ri') cb b' tr =
     Some (Inl (Error single_table_write), b', tr)"
  by (simp add: batchGetAll_def batchPutAll_input_def)

section \<open>Lemmas about the scan loop\<close>

lemma scan_round_Inr:
  assumes "scan_round send st = Inr st'"
  defines "q \<equiv> (case lastEvalKey st of None \<Rightarrow> scan_input st
                 | Some k \<Rightarrow> (scan_input st)\<lparr>ExclusiveStartKey := Some k\<rparr>)"
  defines "a \<equiv> fst (send (scan_backend st) q)"
  shows "\<exists>result. a = Inr result \<and> lastEvalKey st' = LastEvaluatedKey result"
    and "scan_input st' = q"
    and "scan_results st' = scan_results st @ scan_items a"
    and "scan_backend st' = snd (send (scan_backend st) q)"
    and "\<exists>ext. scan_trace st' = scan_trace st @ ext \<and> sends ext = [(q, a)]"
  using assms(1) unfolding q_def a_def
  by (auto simp: scan_round_def Let_def scan_items_def
      split: prod.splits sum.splits option.splits)

lemma scan_round_Inl:
  assumes "scan_round send st = Inl (x, st')"
  defines "q \<equiv> (case lastEvalKey st of None \<Rightarrow> scan_input st
                 | Some k \<Rightarrow> (scan_input st)\<lparr>ExclusiveStartKey := Some k\<rparr>)"
  shows "\<exists>e. fst (send (scan_backend st) q) = Inl e \<and> x = Rejected e \<and>
             scan_trace st' = scan_trace st @ [Send q (Inl e)]"
    and "scan_results st' = scan_results st"
  using assms(1) unfolding q_def
  by (auto simp: scan_round_def Let_def
      split: prod.splits sum.splits option.splits)

text \<open>
  The calls of a scan loop form a cursor chain from the request of its first round, and
  the records collected are those of the answers, in order.
\<close>

lemma scan_loop_chain:
  "scan_loop fuel send st = Some r \<Longrightarrow>
   \<exists>ext. scan_trace (state_of r) = scan_trace st @ ext \<and>
         scan_chain (case lastEvalKey st of None \<Rightarrow> scan_input st
                     | Some k \<Rightarrow> (scan_input st)\<lparr>ExclusiveStartKey := Some k\<rparr>) (sends ext) \<and>
         scan_results (state_of r) =
           scan_results st @ concat (map (\<lambda>(q, a). scan_items a) (sends ext))"
proof (induction fuel arbitrary: st)
  case 0
  then show ?case by simp
next
  case (Suc fuel)
  let ?q = "case lastEvalKey st of None \<Rightarrow> scan_input st
            | Some k \<Rightarrow> (scan_input st)\<lparr>ExclusiveStartKey := Some k\<rparr>"
  show ?case
  proof (cases "scan_round send st")
    case (Inl err)
    obtain x s where err: "err = (x, s)" by (cases err)
    from Suc.prems Inl have r: "r = Inl (x, s)" by (simp add: err)
    from scan_round_Inl [OF Inl [unfolded err]] obtain e where
      tr: "scan_trace s = scan_trace st @ [Send ?q (Inl e)]" and rs: "scan_results s = scan_results st"
      by blast
    have "scan_trace (state_of r) = scan_trace st @ [Send ?q (Inl e)]"
      by (simp add: r state_of_def tr)
    moreover have "scan_chain ?q (sends [Send ?q (Inl e)])" by simp
    moreover have "scan_results (state_of r) =
        scan_results st @ concat (map (\<lambda>(q, a). scan_items a) (sends [Send ?q (Inl e)]))"
      by (simp add: r state_of_def rs scan_items_def)
    ultimately show ?thesis by blast
  next
    case (Inr st1)
    from scan_round_Inr(1) [OF Inr] obtain result where
      a: "fst (send (scan_backend st) ?q) = Inr result"
      and k: "lastEvalKey st1 = LastEvaluatedKey result"
      by blast
    from scan_round_Inr(5) [OF Inr] obtain ext0 where
      tr: "scan_trace st1 = scan_trace st @ ext0" "sends ext0 = [(?q, Inr result)]"
      unfolding a by blast
    have i: "scan_input st1 = ?q"
      by (rule scan_round_Inr(2) [OF Inr])
    have rs: "scan_results st1 = scan_results st @ scan_items (fst (send (scan_backend st) ?q))"
      by (rule scan_round_Inr(3) [OF Inr])
    show ?thesis
    proof (cases "LastEvaluatedKey result")
      case None
      with Suc.prems Inr k have r: "r = Inr st1" by simp
      have "scan_trace (state_of r) = scan_trace st @ ext0"
        by (simp add: r state_of_def tr)
      moreover have "scan_chain ?q (sends ext0)"
        by (simp add: tr None)
      moreover have "scan_results (state_of r) =
          scan_results st @ concat (map (\<lambda>(q, a). scan_items a) (sends ext0))"
        by (simp add: r state_of_def rs tr a)
      ultimately show ?thesis by blast
    next
      case (Some c)
      with Suc.prems Inr k have "scan_loop fuel send st1 = Some r" by simp
      from Suc.IH [OF this] obtain ext where e: "scan_trace (state_of r) = scan_trace st1 @ ext"
        "scan_chain (?q\<lparr>ExclusiveStartKey := Some c\<rparr>) (sends ext)"
        "scan_results (state_of r) =
           scan_results st1 @ concat (map (\<lambda>(q, a). scan_items a) (sends ext))"
        unfolding k i Some option.case by blast
      have "scan_trace (state_of r) = scan_trace st @ (ext0 @ ext)"
        by (simp add: e(1) tr)
      moreover have "scan_chain ?q (sends (ext0 @ ext))"
        by (simp add: tr Some e(2))
      moreover have "scan_results (state_of r) =
          scan_results st @ concat (map (\<lambda>(q, a). scan_items a) (sends (ext0 @ ext)))"
        by (simp add: e(3) rs tr a)
      ultimately show ?thesis by blast
    qed
  qed
qed

lemma scan_loop_unroll:
  assumes "send (scan_backend st) (case lastEvalKey st of None \<Rightarrow> scan_input st
                 | Some k \<Rightarrow> (scan_input st)\<lparr>ExclusiveStartKey := Some k\<rparr>) = (Inr result, b)"
  shows "\<exists>st'. scan_round send st = Inr st' \<and> scan_backend st' = b \<and>
           lastEvalKey st' = LastEvaluatedKey result \<and>
           scan_input st' = (case lastEvalKey st of None \<Rightarrow> scan_input st
                 | Some k \<Rightarrow> (scan_input st)\<lparr>ExclusiveStartKey := Some k\<rparr>) \<and>
           scan_results st' = scan_results st @ scan_items (Inr result) \<and>
           sends (scan_trace st') = sends (scan_trace st) @
             [(case lastEvalKey st of None \<Rightarrow> scan_input st
                 | Some k \<Rightarrow> (scan_input st)\<lparr>ExclusiveStartKey := Some k\<rparr>, Inr result)]"
  using assms by (simp add: scan_round_def Let_def scan_items_def)

lemma batchScanAll_chain:
  assumes "batchScanAll fuel send inp b = Some (res, b', tr)"
  shows "scan_chain inp (sends tr)"
    and "res = Inr rs \<Longrightarrow> rs = concat (map (\<lambda>(q, a). scan_items a) (sends tr))"
proof -
  let ?c = "Console (''getting all items for '' @
             (case TableName inp of None \<Rightarrow> ''undefined'' | Some t \<Rightarrow> t))"
  let ?st0 = "\<lparr>scan_input = inp, scan_results = [], lastEvalKey = None, scan_backend = b,
               scan_trace = [?c]\<rparr>"
  from assms obtain r where l: "scan_loop fuel send ?st0 = Some r"
    by (auto simp: batchScanAll_def Let_def split: option.splits)
  from scan_loop_chain [OF l] obtain ext where e: "scan_trace (state_of r) = [?c] @ ext"
    "scan_chain inp (sends ext)"
    "scan_results (state_of r) = concat (map (\<lambda>(q, a). scan_items a) (sends ext))"
    by auto
  have s: "sends tr = sends ext"
    using assms l e(1)
    by (auto simp: batchScanAll_def Let_def state_of_def split: sum.splits)
  show "scan_chain inp (sends tr)"
    by (simp add: s e(2))
  show "rs = concat (map (\<lambda>(q, a). scan_items a) (sends tr))" if "res = Inr rs"
    using that assms l e(3)
    by (auto simp: s batchScanAll_def Let_def state_of_def split: sum.splits)
qed

lemma batchScanAll_three:
  fixes send :: "('b, 'c ScanCommandInput, 'e, ('c, 'r) ScanCommandOutput) backend"
  assumes "send b0 inp = (Inr \<lparr>Items = Some xs1, LastEvaluatedKey = Some c1\<rparr>, b1)"
    and "send b1 (inp\<lparr>ExclusiveStartKey := Some c1\<rparr>) =
           (Inr \<lparr>Items = Some xs2, LastEvaluatedKey = Some c2\<rparr>, b2)"
    and "send b2 (inp\<lparr>ExclusiveStartKey := Some c2\<rparr>) =
           (Inr \<lparr>Items = Some xs3, LastEvaluatedKey = None\<rparr>, b3)"
    and "length xs1 = 10" "length xs2 = 10" "length xs3 = 5"
  shows "\<exists>tr0. batchScanAll (3 + fuel) send inp b0 = Some (Inr (xs1 @ xs2 @ xs3), b3, tr0) \<and>
            length (xs1 @ xs2 @ xs3) = 25 \<and> length (sends tr0) = 3 \<and>
            map fst (sends tr0) =
              [inp, inp\<lparr>ExclusiveStartKey := Some c1\<rparr>, inp\<lparr>ExclusiveStartKey := Some c2\<rparr>]"
proof -
  define st0 :: "('c, 'r, 'b, 'e) scan_state"
    where "st0 = \<lparr>scan_input = inp, scan_results = [], lastEvalKey = None,
      scan_backend = b0,
      scan_trace = [Console (''getting all items for '' @
         (case TableName inp of None \<Rightarrow> ''undefined'' | Some t \<Rightarrow> t))]\<rparr>"
  have s0: "scan_input st0 = inp" "scan_results st0 = []" "lastEvalKey st0 = None"
    "scan_backend st0 = b0" "sends (scan_trace st0) = []"
    by (simp_all add: st0_def)
  from scan_loop_unroll [of send st0 _ b1] assms(1) obtain st1 where
    r1: "scan_round send st0 = Inr st1" and s1: "scan_backend st1 = b1"
      "lastEvalKey st1 = Some c1" "scan_input st1 = inp" "scan_results st1 = xs1"
      "map fst (sends (scan_trace st1)) = [inp]"
    by (auto simp: s0 scan_items_def)
  from scan_loop_unroll [of send st1 _ b2] assms(2) obtain st2 where
    r2: "scan_round send st1 = Inr st2" and s2: "scan_backend st2 = b2"
      "lastEvalKey st2 = Some c2" "scan_input st2 = inp\<lparr>ExclusiveStartKey := Some c1\<rparr>"
      "scan_results st2 = xs1 @ xs2"
      "map fst (sends (scan_trace st2)) = [inp, inp\<lparr>ExclusiveStartKey := Some c1\<rparr>]"
    by (auto simp: s1 scan_items_def)
  from scan_loop_unroll [of send st2 _ b3] assms(3) obtain st3 where
    r3: "scan_round send st2 = Inr st3" and s3: "scan_backend st3 = b3"
      "lastEvalKey st3 = None"
      "scan_results st3 = xs1 @ xs2 @ xs3"
      "map fst (sends (scan_trace st3)) =
         [inp, inp\<lparr>ExclusiveStartKey := Some c1\<rparr>, inp\<lparr>ExclusiveStartKey := Some c2\<rparr>]"
    by (auto simp: s2 scan_items_def)
  have e: "3 + fuel = Suc (Suc (Suc fuel))" by simp
  have "scan_loop (3 + fuel) send st0 = Some (Inr st3)"
    unfolding e by (simp add: r1 r2 r3 s1 s2 s3)
  then have "batchScanAll (3 + fuel) send inp b0 =
      Some (Inr (scan_results st3), scan_backend st3,
            scan_trace st3 @ [Console (''total items: '' @ toString (length (scan_results st3)))])"
    unfolding batchScanAll_def st0_def [symmetric] Let_def by simp
  moreover have "length (xs1 @ xs2 @ xs3) = 25"
    using assms(4-6) by simp
  moreover have "map fst (sends (scan_trace st3 @
      [Console (''total items: '' @ toString (length (scan_results st3)))])) =
      [inp, inp\<lparr>ExclusiveStartKey := Some c1\<rparr>, inp\<lparr>ExclusiveStartKey := Some c2\<rparr>]"
    by (simp add: s3)
  moreover from this have "length (sends (scan_trace st3 @
      [Console (''total items: '' @ toString (length (scan_results st3)))])) = 3"
    using length_map [of fst "sends (scan_trace st3 @
      [Console (''total items: '' @ toString (length (scan_results st3)))])"] by simp
  ultimately show ?thesis
    unfolding s3 by (intro exI conjI)
qed

text \<open>A scan loop that is served its pages returns after one call per page.\<close>

lemma scan_loop_serves:
  fixes send :: "('b, 'c ScanCommandInput, 'e, ('c, 'r) ScanCommandOutput) backend"
  shows "scan_serves send (scan_backend st)
           (case lastEvalKey st of None \<Rightarrow> scan_input st
            | Some k \<Rightarrow> (scan_input st)\<lparr>ExclusiveStartKey := Some k\<rparr>) rs b' \<Longrightarrow>
         \<exists>st'. scan_loop (length rs + fuel) send st = Some (Inr st') \<and>
               scan_backend st' = b' \<and>
               map snd (sends (scan_trace st')) = map snd (sends (scan_trace st)) @ map Inr rs \<and>
               scan_results st' = scan_results st @ concat (map scan_items (map Inr rs :: ('e + ('c, 'r) ScanCommandOutput) list))"
proof (induction rs arbitrary: st)
  case Nil
  then show ?case by simp
next
  case (Cons r rs)
  let ?q = "case lastEvalKey st of None \<Rightarrow> scan_input st
            | Some k \<Rightarrow> (scan_input st)\<lparr>ExclusiveStartKey := Some k\<rparr>"
  from Cons.prems obtain b1 where a: "send (scan_backend st) ?q = (Inr r, b1)"
    and c: "case LastEvaluatedKey r of
              None \<Rightarrow> rs = [] \<and> b1 = b'
            | Some k \<Rightarrow> rs \<noteq> [] \<and> scan_serves send b1 (?q\<lparr>ExclusiveStartKey := Some k\<rparr>) rs b'"
    by (auto split: prod.splits sum.splits)
  from scan_loop_unroll [where send = send and st = st and result = r and b = b1, OF a]
  obtain st1 where r1: "scan_round send st = Inr st1" and s1: "scan_backend st1 = b1"
    "lastEvalKey st1 = LastEvaluatedKey r" "scan_input st1 = ?q"
    "scan_results st1 = scan_results st @ scan_items (Inr r :: 'e + ('c, 'r) ScanCommandOutput)"
    "sends (scan_trace st1) = sends (scan_trace st) @ [(?q, Inr r)]"
    by (elim exE conjE)
  show ?case
  proof (cases "LastEvaluatedKey r")
    case None
    with c have e: "rs = []" "b1 = b'" by simp_all
    have "scan_loop (length (r # rs) + fuel) send st = Some (Inr st1)"
      using r1 s1(2) None by simp
    moreover have "scan_backend st1 = b'" by (simp add: s1(1) e(2))
    moreover have "map snd (sends (scan_trace st1)) =
        map snd (sends (scan_trace st)) @ map Inr (r # rs)"
      by (simp add: s1(5) e(1))
    moreover have "scan_results st1 = scan_results st @
        concat (map scan_items (map Inr (r # rs) :: ('e + ('c, 'r) ScanCommandOutput) list))"
      by (simp add: s1(4) e(1))
    ultimately show ?thesis by (intro exI conjI)
  next
    case (Some k)
    with c have "scan_serves send b1 (?q\<lparr>ExclusiveStartKey := Some k\<rparr>) rs b'" by simp
    then have "scan_serves send (scan_backend st1)
        (case lastEvalKey st1 of None \<Rightarrow> scan_input st1
         | Some k \<Rightarrow> (scan_input st1)\<lparr>ExclusiveStartKey := Some k\<rparr>) rs b'"
      by (simp add: s1 Some)
    from Cons.IH [OF this] obtain st' where
      l: "scan_loop (length rs + fuel) send st1 = Some (Inr st')"
      and p: "scan_backend st' = b'"
        "map snd (sends (scan_trace st')) = map snd (sends (scan_trace st1)) @ map Inr rs"
        "scan_results st' = scan_results st1 @
           concat (map scan_items (map Inr rs :: ('e + ('c, 'r) ScanCommandOutput) list))"
      by (elim exE conjE)
    have "scan_loop (length (r # rs) + fuel) send st = Some (Inr st')"
      using r1 s1(2) Some l by simp
    moreover have "map snd (sends (scan_trace st')) =
        map snd (sends (scan_trace st)) @ map Inr (r # rs)"
      by (simp add: p(2) s1(5))
    moreover have "scan_results st' = scan_results st @
        concat (map scan_items (map Inr (r # rs) :: ('e + ('c, 'r) ScanCommandOutput) list))"
      by (simp add: p(3) s1(4))
    ultimately show ?thesis using p(1) by (intro exI conjI)
  qed
qed

lemma batchScanAll_serves:
  fixes send :: "('b, 'c ScanCommandInput, 'e, ('c, 'r) ScanCommandOutput) backend"
  assumes "scan_serves send b inp pages b'"
  shows "\<exists>tr. batchScanAll (length pages + fuel) send inp b =
            Some (Inr (concat (map scan_items (map snd (sends tr)))), b', tr) \<and>
          map snd (sends tr) = map Inr pages"
proof -
  define st0 :: "('c, 'r, 'b, 'e) scan_state"
    where "st0 = \<lparr>scan_input = inp, scan_results = [], lastEvalKey = None, scan_backend = b,
      scan_trace = [Console (''getting all items for '' @
         (case TableName inp of None \<Rightarrow> ''undefined'' | Some t \<Rightarrow> t))]\<rparr>"
  have "scan_serves send (scan_backend st0)
      (case lastEvalKey st0 of None \<Rightarrow> scan_input st0
       | Some k \<Rightarrow> (scan_input st0)\<lparr>ExclusiveStartKey := Some k\<rparr>) pages b'"
    using assms by (simp add: st0_def)
  from scan_loop_serves [OF this, of fuel] obtain st' where
    l: "scan_loop (length pages + fuel) send st0 = Some (Inr st')"
    and p: "scan_backend st' = b'"
      "map snd (sends (scan_trace st')) = map snd (sends (scan_trace st0)) @ map Inr pages"
      "scan_results st' = scan_results st0 @
         concat (map scan_items (map Inr pages :: ('e + ('c, 'r) ScanCommandOutput) list))"
    by (elim exE conjE)
  let ?tr = "scan_trace st' @
      [Console (''total items: '' @ toString (length (scan_results st')))]"
  have m: "map snd (sends ?tr) = map Inr pages"
    by (simp add: p(2) st0_def)
  have "batchScanAll (length pages + fuel) send inp b =
      Some (Inr (scan_results st'), scan_backend st', ?tr)"
    using l unfolding batchScanAll_def st0_def [symmetric] Let_def by simp
  moreover have "scan_results st' = concat (map scan_items (map snd (sends ?tr)))"
    unfolding m by (simp add: p(3) st0_def)
  ultimately have "batchScanAll (length pages + fuel) send inp b =
      Some (Inr (concat (map scan_items (map snd (sends ?tr)))), b', ?tr)"
    by (simp add: p(1))
  with m show ?thesis by (intro exI conjI)
qed

text \<open>
  C6. (i) Whenever the backend answers the first call with 10 records and cursor \<open>c1\<close>,
  the call that carries \<open>c1\<close> with 10 records and cursor \<open>c2\<close>, and the call that carries
  \<open>c2\<close> with 5 records and no cursor, \<open>batchScanAll\<close> returns (given fuel for three
  rounds) the 25 records of the three answers in order after exactly these three calls.
  (ii) In general, for every call of \<open>batchScanAll\<close> that returns or raises, the calls
  made form a cursor chain from the caller's request: each later call carries the cursor
  of the answer before it, and the calls stop exactly at the first answer without cursor;
  the list returned is the concatenation of the records of all answers.
  (iii) And the call does return: whenever the backend serves the scan any number of
  pages, the last of them the first without cursor, \<open>batchScanAll\<close> returns, given fuel
  for one round per page, after exactly one call per page, with the records of all pages
  in order and the backend in the state after the last page.
\<close>

theorem scan_exhaustion:
  "(send b0 inp = (Inr \<lparr>Items = Some xs1, LastEvaluatedKey = Some c1\<rparr>, b1) \<and>
    send b1 (inp\<lparr>ExclusiveStartKey := Some c1\<rparr>) =
      (Inr \<lparr>Items = Some xs2, LastEvaluatedKey = Some c2\<rparr>, b2) \<and>
    send b2 (inp\<lparr>ExclusiveStartKey := Some c2\<rparr>) =
      (Inr \<lparr>Items = Some xs3, LastEvaluatedKey = None\<rparr>, b3) \<and>
    length xs1 = 10 \<and> length xs2 = 10 \<and> length xs3 = 5 \<longrightarrow>
    (\<exists>tr0. batchScanAll (3 + fuel0) send inp b0 = Some (Inr (xs1 @ xs2 @ xs3), b3, tr0) \<and>
            length (xs1 @ xs2 @ xs3) = 25 \<and> length (sends tr0) = 3 \<and>
            map fst (sends tr0) =
              [inp, inp\<lparr>ExclusiveStartKey := Some c1\<rparr>, inp\<lparr>ExclusiveStartKey := Some c2\<rparr>])) \<and>
   (batchScanAll fuel send inp b = Some (res, b', tr) \<longrightarrow>
    scan_chain inp (sends tr) \<and>
    (\<forall>rs. res = Inr rs \<longrightarrow> rs = concat (map (\<lambda>(q, a). scan_items a) (sends tr)))) \<and>
   (scan_serves send bs inp pages be \<longrightarrow>
    (\<exists>tr1. batchScanAll (length pages + fuel1) send inp bs =
              Some (Inr (concat (map scan_items (map snd (sends tr1)))), be, tr1) \<and>
            map snd (sends tr1) = map Inr pages))"
proof -
  have 1: "send b0 inp = (Inr \<lparr>Items = Some xs1, LastEvaluatedKey = Some c1\<rparr>, b1) \<and>
    send b1 (inp\<lparr>ExclusiveStartKey := Some c1\<rparr>) =
      (Inr \<lparr>Items = Some xs2, LastEvaluatedKey = Some c2\<rparr>, b2) \<and>
    send b2 (inp\<lparr>ExclusiveStartKey := Some c2\<rparr>) =
      (Inr \<lparr>Items = Some xs3, LastEvaluatedKey = None\<rparr>, b3) \<and>
    length xs1 = 10 \<and> length xs2 = 10 \<and> length xs3 = 5 \<longrightarrow>
    (\<exists>tr0. batchScanAll (3 + fuel0) send inp b0 = Some (Inr (xs1 @ xs2 @ xs3), b3, tr0) \<and>
            length (xs1 @ xs2 @ xs3) = 25 \<and> length (sends tr0) = 3 \<and>
            map fst (sends tr0) =
              [inp, inp\<lparr>ExclusiveStartKey := Some c1\<rparr>, inp\<lparr>ExclusiveStartKey := Some c2\<rparr>])"
    by (intro impI, elim conjE) (rule batchScanAll_three)
  have 2: "batchScanAll fuel send inp b = Some (res, b', tr) \<longrightarrow>
    scan_chain inp (sends tr) \<and>
    (\<forall>rs. res = Inr rs \<longrightarrow> rs = concat (map (\<lambda>(q, a). scan_items a) (sends tr)))"
  proof (intro impI conjI allI)
    assume "batchScanAll fuel send inp b = Some (res, b', tr)"
    then show "scan_chain inp (sends tr)" by (rule batchScanAll_chain(1))
  next
    fix rs
    assume "batchScanAll fuel send inp b = Some (res, b', tr)" "res = Inr rs"
    then show "rs = concat (map (\<lambda>(q, a). scan_items a) (sends tr))"
      by (rule batchScanAll_chain(2))
  qed
  have 3: "scan_serves send bs inp pages be \<longrightarrow>
    (\<exists>tr1. batchScanAll (length pages + fuel1) send inp bs =
              Some (Inr (concat (map scan_items (map snd (sends tr1)))), be, tr1) \<and>
            map snd (sends tr1) = map Inr pages)"
    by (intro impI) (rule batchScanAll_serves)
  from 1 2 3 show ?thesis by (intro conjI)
qed

theorem scan_exhaustion_witness:
  "(\<exists>tr. batchScanAll 3
          (scripted (scan_answer [] None) ::
             ((unit + (nat, nat) ScanCommandOutput) list, nat ScanCommandInput, unit,
              (nat, nat) ScanCommandOutput) backend)
          (scan_request ''t'' None)
          [Inr (scan_answer [1, 2, 3, 4, 5, 6, 7, 8, 9, 10 :: nat] (Some (1 :: nat))),
           Inr (scan_answer [11, 12, 13, 14, 15, 16, 17, 18, 19, 20] (Some 2)),
           Inr (scan_answer [21, 22, 23, 24, 25] None)] =
        Some (Inr [1, 2, 3, 4, 5, 6, 7, 8, 9, 10, 11, 12, 13, 14, 15, 16, 17, 18, 19, 20,
                   21, 22, 23, 24, 25], [], tr) \<and>
        length (sends tr) = 3 \<and> scan_chain (scan_request ''t'' None) (sends tr)) \<and>
   (\<exists>tr. batchScanAll 4
          (scripted (scan_answer [] None) ::
             ((unit + (nat, nat) ScanCommandOutput) list, nat ScanCommandInput, unit,
              (nat, nat) ScanCommandOutput) backend)
          (scan_request ''t'' None)
          [Inr (scan_answer [1 :: nat] (Some (1 :: nat))), Inr (scan_answer [2] (Some 2)),
           Inr (scan_answer [3] (Some 3)), Inr (scan_answer [4] None)] =
        Some (Inr [1, 2, 3, 4], [], tr) \<and> length (sends tr) = 4)"
proof -
  let ?send = "scripted (scan_answer [] None) ::
    ((unit + (nat, nat) ScanCommandOutput) list, nat ScanCommandInput, unit,
     (nat, nat) ScanCommandOutput) backend"
  let ?inp = "scan_request ''t'' None :: nat ScanCommandInput"
  let ?xs1 = "[1, 2, 3, 4, 5, 6, 7, 8, 9, 10 :: nat]"
  let ?xs2 = "[11, 12, 13, 14, 15, 16, 17, 18, 19, 20 :: nat]"
  let ?xs3 = "[21, 22, 23, 24, 25 :: nat]"
  let ?b2 = "[Inr (scan_answer ?xs3 None)] :: (unit + (nat, nat) ScanCommandOutput) list"
  let ?b1 = "Inr (scan_answer ?xs2 (Some 2)) # ?b2"
  let ?b0 = "Inr (scan_answer ?xs1 (Some 1)) # ?b1"
  have h: "?send ?b0 ?inp = (Inr \<lparr>Items = Some ?xs1, LastEvaluatedKey = Some 1\<rparr>, ?b1) \<and>
    ?send ?b1 (?inp\<lparr>ExclusiveStartKey := Some 1\<rparr>) =
      (Inr \<lparr>Items = Some ?xs2, LastEvaluatedKey = Some 2\<rparr>, ?b2) \<and>
    ?send ?b2 (?inp\<lparr>ExclusiveStartKey := Some 2\<rparr>) =
      (Inr \<lparr>Items = Some ?xs3, LastEvaluatedKey = None\<rparr>, []) \<and>
    length ?xs1 = 10 \<and> length ?xs2 = 10 \<and> length ?xs3 = 5"
    by (simp add: scripted_def scan_answer_def)
  from scan_exhaustion [where send = ?send and ?b0.0 = ?b0 and inp = ?inp and ?xs1.0 = ?xs1
      and ?c1.0 = 1 and ?b1.0 = ?b1 and ?xs2.0 = ?xs2 and ?c2.0 = 2 and ?b2.0 = ?b2
      and ?xs3.0 = ?xs3 and ?b3.0 = "[]" and ?fuel0.0 = 0,
      THEN conjunct1, rule_format, OF h]
  obtain tr0 where t: "batchScanAll (3 + 0) ?send ?inp ?b0 = Some (Inr (?xs1 @ ?xs2 @ ?xs3), [], tr0)"
    "length (sends tr0) = 3"
    by (elim exE conjE)
  from scan_exhaustion [where send = ?send and inp = ?inp and fuel = "3 + 0" and b = ?b0
      and res = "Inr (?xs1 @ ?xs2 @ ?xs3)" and b' = "[]" and tr = tr0,
      THEN conjunct2, THEN conjunct1, rule_format, THEN conjunct1, OF t(1)]
  have c: "scan_chain ?inp (sends tr0)" .
  have e: "(3::nat) + 0 = 3" by simp
  note t1 = t(1) [unfolded e append.simps]
  from t1 t(2) c have w1: "\<exists>tr. batchScanAll 3 ?send ?inp ?b0 =
      Some (Inr [1, 2, 3, 4, 5, 6, 7, 8, 9, 10, 11, 12, 13, 14, 15, 16, 17, 18, 19, 20,
                 21, 22, 23, 24, 25], [], tr) \<and>
      length (sends tr) = 3 \<and> scan_chain ?inp (sends tr)"
    by (intro exI conjI)
  let ?pages = "[scan_answer [1 :: nat] (Some (1 :: nat)), scan_answer [2] (Some 2),
      scan_answer [3] (Some 3), scan_answer [4] None] :: (nat, nat) ScanCommandOutput list"
  let ?p0 = "[Inr (scan_answer [1 :: nat] (Some (1 :: nat))), Inr (scan_answer [2] (Some 2)),
      Inr (scan_answer [3] (Some 3)), Inr (scan_answer [4] None)] ::
      (unit + (nat, nat) ScanCommandOutput) list"
  have sv: "scan_serves ?send ?p0 ?inp ?pages []"
    by (simp add: scripted_def scan_answer_def)
  from scan_exhaustion [where send = ?send and inp = ?inp and bs = ?p0 and pages = ?pages
      and be = "[]" and ?fuel1.0 = 0,
      THEN conjunct2, THEN conjunct2, rule_format, OF sv]
  obtain tr1 where u: "batchScanAll (length ?pages + 0) ?send ?inp ?p0 =
      Some (Inr (concat (map scan_items (map snd (sends tr1)))), [], tr1)"
    and m: "map snd (sends tr1) = map Inr ?pages"
    by (elim exE conjE)
  have l4: "length (sends tr1) = 4"
    using length_map [of snd "sends tr1"] unfolding m by simp
  have r4: "concat (map scan_items (map snd (sends tr1))) = [1, 2, 3, 4]"
    unfolding m by (simp add: scan_items_def scan_answer_def)
  have e4: "length ?pages + 0 = 4" by simp
  note u1 = u [unfolded e4 r4]
  from u1 l4 have w2: "\<exists>tr. batchScanAll 4 ?send ?inp ?p0 = Some (Inr [1, 2, 3, 4], [], tr) \<and>
      length (sends tr) = 4"
    by (intro exI conjI)
  from w1 w2 show ?thesis by (rule conjI)
qed

section \<open>Rejected backend calls\<close>









lemmas get_eval = batchGetAll_def get_input_def keys_of_def get_init_def get_loop.simps
  get_round_def get_request_def Let_def scripted_def get_answer_def batchGetLimit_def
  rejecting_def answering_def read_prop_def object_prototype_def



section \<open>The exported functions and their loops\<close>

lemma put_round_Inl_trace:
  assumes "put_round cfg send stringify showError t cb st = Inl (x, st')"
  defines "n \<equiv> min (length (unprocessedItems st)) batchWriteLimit"
  defines "q \<equiv> [(t, take n (unprocessedItems st))]"
  defines "a \<equiv> fst (send (put_backend st) q)"
  shows "\<exists>ext. put_trace st' = put_trace st @ ext \<and> sends ext = [(q, a)] \<and>
           waits ext = [] \<and>
           callbacks ext = (if cb then [toString (length (drop n (unprocessedItems st)))] else [])"
    and "put_residual t a = []"
  using assms(1) unfolding n_def q_def a_def
  by (auto simp: put_round_def Let_def read_prop_def put_residual_def
      split: prod.splits sum.splits option.splits if_splits proto_member.splits)

lemma put_loop_Inl:
  "put_loop fuel cfg send stringify showError t cb st0 = Some (Inl (x, s)) \<Longrightarrow>
   \<exists>n st. put_after n cfg send stringify showError t cb st0 = Some st \<and>
          unprocessedItems st \<noteq> [] \<and>
          put_round cfg send stringify showError t cb st = Inl (x, s)"
proof (induction fuel arbitrary: st0)
  case 0
  then show ?case by (simp add: put_loop.simps split: if_splits)
next
  case (Suc fuel)
  from Suc.prems have ne: "unprocessedItems st0 \<noteq> []"
    by (auto simp: put_loop.simps split: if_splits)
  show ?case
  proof (cases "put_round cfg send stringify showError t cb st0")
    case (Inl err)
    with Suc.prems ne have "err = (x, s)" by (simp add: put_loop.simps)
    with Inl ne have "put_after 0 cfg send stringify showError t cb st0 = Some st0 \<and>
        unprocessedItems st0 \<noteq> [] \<and>
        put_round cfg send stringify showError t cb st0 = Inl (x, s)" by simp
    then show ?thesis by blast
  next
    case (Inr st1)
    with Suc.prems ne have "put_loop fuel cfg send stringify showError t cb st1 = Some (Inl (x, s))"
      by (simp add: put_loop.simps)
    from Suc.IH [OF this] obtain n st where
      "put_after n cfg send stringify showError t cb st1 = Some st"
      and k: "unprocessedItems st \<noteq> []"
        "put_round cfg send stringify showError t cb st = Inl (x, s)" by blast
    with Inr ne have "put_after (Suc n) cfg send stringify showError t cb st0 = Some st" by simp
    with k show ?thesis by blast
  qed
qed



lemma batchPutAll_loop:
  "batchPutAll fuel cfg send stringify showError t items cb b =
     (case put_loop fuel cfg send stringify showError t cb
             (put_init cfg (map PutRequest items) b
                (if cb then [Callback ''starting batch write''] else [])) of
        None \<Rightarrow> None
      | Some (Inl (x, st)) \<Rightarrow> Some (Inl x, put_backend st, put_trace st)
      | Some (Inr st) \<Rightarrow> Some (Inr (), put_backend st, put_trace st))"
  by (simp add: batchPutAll_def batchPutAll_input_def)

lemma batchPutAll_Inr:
  assumes "batchPutAll fuel cfg send stringify showError t items cb b = Some (Inr u, b', tr)"
  shows "\<exists>n st. put_after n cfg send stringify showError t cb
             (put_init cfg (map PutRequest items) b
                (if cb then [Callback ''starting batch write''] else [])) = Some st \<and>
           unprocessedItems st = [] \<and> tr = put_trace st \<and> b' = put_backend st"
proof -
  from assms obtain st where
    l: "put_loop fuel cfg send stringify showError t cb
          (put_init cfg (map PutRequest items) b
             (if cb then [Callback ''starting batch write''] else [])) = Some (Inr st)"
    and r: "tr = put_trace st" "b' = put_backend st"
    by (auto simp: batchPutAll_loop split: option.splits sum.splits)
  from put_loop_Inr [OF l] r show ?thesis by blast
qed

lemma batchPutAll_Inl:
  assumes "batchPutAll fuel cfg send stringify showError t items cb b = Some (Inl x, b', tr)"
  shows "\<exists>n st s. put_after n cfg send stringify showError t cb
             (put_init cfg (map PutRequest items) b
                (if cb then [Callback ''starting batch write''] else [])) = Some st \<and>
           unprocessedItems st \<noteq> [] \<and>
           put_round cfg send stringify showError t cb st = Inl (x, s) \<and>
           tr = put_trace s \<and> b' = put_backend s"
proof -
  from assms obtain s where
    l: "put_loop fuel cfg send stringify showError t cb
          (put_init cfg (map PutRequest items) b
             (if cb then [Callback ''starting batch write''] else [])) = Some (Inl (x, s))"
    and r: "tr = put_trace s" "b' = put_backend s"
    by (auto simp: batchPutAll_loop split: option.splits sum.splits)
  from put_loop_Inl [OF l] r show ?thesis by blast
qed

section \<open>The backoff sequence\<close>







lemmas put_eval = batchPutAll_def batchPutAll_input_def put_init_def put_loop.simps
  put_round_def Let_def not_writing_def batchWriteLimit_def put_answer_def scripted_def
  rejecting_def answering_def read_prop_def object_prototype_def


section \<open>Bounds of the backoff variable\<close>








section \<open>Chunks and results of batchGetAll\<close>











text \<open>
  The prototype chain at work: for a table named \<open>constructor\<close>, an answer that holds the
  records and an empty \<open>UnprocessedKeys\<close> object makes the get raise, and an answer with an
  empty \<open>UnprocessedItems\<close> object makes the put raise.
\<close>

lemma batchGetAll_inherited_name:
  "batchGetAll 1 defaults
     (answering \<lparr>Responses = Some [(''constructor'', [5])], UnprocessedKeys = Some []\<rparr> ::
        (unit, nat BatchGetCommandInput, string, (nat, nat) BatchGetCommandOutput) backend)
     (get_input [(''constructor'', keys_of [1])]) () =
   Some (Inl TypeError, (),
         [Send (get_input [(''constructor'', keys_of [1])])
            (Inr \<lparr>Responses = Some [(''constructor'', [5])], UnprocessedKeys = Some []\<rparr>)])"
  by (simp add: get_eval)

lemma batchPutAll_inherited_name:
  "batchPutAll 1 defaults
     (answering \<lparr>UnprocessedItems = Some []\<rparr> ::
        (unit, nat BatchWriteCommandInput, string, nat BatchWriteCommandOutput) backend)
     (\<lambda>w. Some ''{}'') id ''constructor'' [1] False () =
   Some (Inl TypeError, (),
         [Send [(''constructor'', [PutRequest 1])] (Inr \<lparr>UnprocessedItems = Some []\<rparr>)])"
  by (simp add: batchPutAll_def batchPutAll_input_def put_init_def put_loop.simps
      put_round_def Let_def not_writing_def batchWriteLimit_def answering_def read_prop_def
      object_prototype_def)



section \<open>Chunk accounting\<close>







section \<open>The progress callback of batchPutAll\<close>

lemma put_callbacks_reached:
  assumes "put_after n cfg send stringify showError t True
     (put_init cfg ws b [Callback ''starting batch write'']) = Some st"
  shows "\<exists>args. callbacks (put_trace st) = ''starting batch write'' # args \<and>
           length args = length (sends (put_trace st))"
proof -
  from put_after_callbacks [OF assms] obtain ext where
    e: "put_trace st = [Callback ''starting batch write''] @ ext"
    "length (callbacks ext) = length (sends ext)"
    by (auto simp: put_init_def)
  have "callbacks (put_trace st) = ''starting batch write'' # callbacks ext \<and>
      length (callbacks ext) = length (sends (put_trace st))"
    by (simp add: e)
  then show ?thesis by blast
qed

lemma put_callbacks_ended:
  assumes "batchPutAll fuel cfg send stringify showError t items True b = Some (res, b', tr)"
  shows "\<exists>args. callbacks tr = ''starting batch write'' # args \<and>
           length args = length (sends tr)"
proof (cases res)
  case (Inr u)
  from batchPutAll_Inr [OF assms [unfolded Inr]] obtain n st where
    "put_after n cfg send stringify showError t True
       (put_init cfg (map PutRequest items) b [Callback ''starting batch write'']) = Some st"
    "tr = put_trace st"
    by auto
  then show ?thesis by (simp add: put_callbacks_reached)
next
  case (Inl x)
  from batchPutAll_Inl [OF assms [unfolded Inl]] obtain n st s where
    a: "put_after n cfg send stringify showError t True
       (put_init cfg (map PutRequest items) b [Callback ''starting batch write'']) = Some st"
    and r: "put_round cfg send stringify showError t True st = Inl (x, s)"
    and tr: "tr = put_trace s"
    by auto
  from put_round_Inl_trace(1) [OF r] obtain ext where
    x: "put_trace s = put_trace st @ ext" "length (sends ext) = 1" "length (callbacks ext) = 1"
    by auto
  from put_callbacks_reached [OF a] obtain args where
    c: "callbacks (put_trace st) = ''starting batch write'' # args"
    "length args = length (sends (put_trace st))" by blast
  have "callbacks tr = ''starting batch write'' # (args @ callbacks ext) \<and>
      length (args @ callbacks ext) = length (sends tr)"
    by (simp add: tr x c)
  then show ?thesis by blast
qed

lemma put_round_progress:
  "\<exists>a after.
     put_trace (state_of (put_round cfg send stringify showError t True st)) =
       put_trace st @
       [Callback (toString (length (unprocessedItems st) -
                    min (length (unprocessedItems st)) batchWriteLimit)),
        Send [(t, take (min (length (unprocessedItems st)) batchWriteLimit)
                    (unprocessedItems st))] a] @ after \<and>
     sends after = [] \<and> callbacks after = []"
  using put_round_events [of cfg send stringify showError t True st] by simp

text \<open>
  C9. With a progress callback supplied, every round of \<open>batchPutAll\<close> adds to the trace
  exactly one callback event followed at once by the round's one backend call (and after
  it only console output or a wait), and the callback receives the decimal string of the
  size that the pending queue has at that moment, the chunk having been taken off. Over a
  call that ends, the callbacks are the initial \<open>starting batch write\<close> and then one per
  backend call.
\<close>

theorem progress_callback:
  "(\<exists>a after.
      put_trace (state_of (put_round cfg send stringify showError t True st)) =
        put_trace st @
        [Callback (toString (length (unprocessedItems st) -
                     min (length (unprocessedItems st)) batchWriteLimit)),
         Send [(t, take (min (length (unprocessedItems st)) batchWriteLimit)
                     (unprocessedItems st))] a] @ after \<and>
      sends after = [] \<and> callbacks after = []) \<and>
   (batchPutAll fuel cfg send stringify showError t items True b = Some (res, b', tr) \<longrightarrow>
      (\<exists>args. callbacks tr = ''starting batch write'' # args \<and>
              length args = length (sends tr)))"
proof -
  have "batchPutAll fuel cfg send stringify showError t items True b = Some (res, b', tr) \<longrightarrow>
      (\<exists>args. callbacks tr = ''starting batch write'' # args \<and>
              length args = length (sends tr))"
    by (intro impI) (rule put_callbacks_ended)
  with put_round_progress [of cfg send stringify showError t st] show ?thesis
    by (rule conjI)
qed

theorem progress_callback_witness:
  "\<exists>b' tr. batchPutAll 2 defaults
       (scripted (put_answer ''t'' []) ::
          ((string + nat BatchWriteCommandOutput) list, nat BatchWriteCommandInput, string,
           nat BatchWriteCommandOutput) backend)
       (\<lambda>w. Some ''{}'') id ''t'' (replicate 30 7) True [] = Some (Inr (), b', tr) \<and>
     callbacks tr = [''starting batch write'', ''5'', ''0''] \<and> length (sends tr) = 2"
proof -
  let ?ps = "scripted (put_answer ''t'' []) ::
          ((string + nat BatchWriteCommandOutput) list, nat BatchWriteCommandInput, string,
           nat BatchWriteCommandOutput) backend"
  let ?str = "\<lambda>w :: nat WriteRequest. Some ''{}''"
  obtain b' tr where a: "batchPutAll 2 defaults ?ps ?str id ''t'' (replicate 30 7) True [] =
      Some (Inr (), b', tr)"
    and c: "callbacks tr = [''starting batch write'', ''5'', ''0'']"
    by (simp add: put_eval numeral_2_eq_2 toString.simps digit_def)
  from progress_callback [where fuel = 2 and cfg = defaults and send = ?ps and stringify = ?str
      and showError = id and t = "''t''" and items = "replicate 30 7" and b = "[]"
      and res = "Inr ()" and b' = b' and tr = tr, THEN conjunct2, rule_format, OF a]
  obtain args where "callbacks tr = ''starting batch write'' # args"
    "length args = length (sends tr)" by (elim exE conjE)
  with c have "length (sends tr) = 2" by simp
  with a c show ?thesis by (intro exI conjI)
qed

section \<open>Rejected writes in batchPutAll\<close>

lemma those_map_total: "\<forall>x. f x \<noteq> None \<Longrightarrow> those (map f xs) \<noteq> None"
  by (induction xs) (auto split: option.splits)

lemma not_writing_total:
  "\<forall>w. stringify w \<noteq> None \<Longrightarrow> not_writing stringify showError ws e \<noteq> None"
  using those_map_total [of stringify ws]
  by (auto simp: not_writing_def split: option.splits)

text \<open>
  Where every write request can be turned into JSON, a rejected write is swallowed: the
  round completes, the chunk is gone from the queue and the backoff is reset.
\<close>

lemma put_round_swallows:
  assumes "\<forall>w. stringify w \<noteq> None"
    and "fst (send (put_backend st)
           [(t, take (min (length (unprocessedItems st)) batchWriteLimit)
                  (unprocessedItems st))]) = Inl e"
  shows "\<exists>st'. put_round cfg send stringify showError t cb st = Inr st' \<and>
           unprocessedItems st' =
             drop (min (length (unprocessedItems st)) batchWriteLimit) (unprocessedItems st) \<and>
           put_backoff st' = backoffInitial cfg \<and> waits (put_trace st') = waits (put_trace st)"
proof -
  from not_writing_total [OF assms(1), of showError
      "take (min (length (unprocessedItems st)) batchWriteLimit) (unprocessedItems st)" e]
  obtain line where
    "not_writing stringify showError
       (take (min (length (unprocessedItems st)) batchWriteLimit) (unprocessedItems st)) e =
     Some line" by blast
  with assms(2) show ?thesis
    by (auto simp: put_round_def Let_def split: prod.splits)
qed

lemma put_round_never_raises:
  assumes "\<forall>w. stringify w \<noteq> None" and "map_of object_prototype t = None"
  shows "put_round cfg send stringify showError t cb st \<noteq> Inl (x, s)"
proof
  assume "put_round cfg send stringify showError t cb st = Inl (x, s)"
  from put_round_Inl(2) [OF this] assms(2) obtain e where
    "not_writing stringify showError
       (take (min (length (unprocessedItems st)) batchWriteLimit) (unprocessedItems st)) e = None"
    by auto
  with not_writing_total [OF assms(1), of showError
      "take (min (length (unprocessedItems st)) batchWriteLimit) (unprocessedItems st)" e]
  show False by simp
qed

lemma batchPutAll_never_raises:
  assumes "\<forall>w. stringify w \<noteq> None" and "map_of object_prototype t = None"
  shows "batchPutAll fuel cfg send stringify showError t items cb b \<noteq> Some (Inl x, b', tr)"
proof
  assume "batchPutAll fuel cfg send stringify showError t items cb b = Some (Inl x, b', tr)"
  from batchPutAll_Inl [OF this] obtain st s where
    "put_round cfg send stringify showError t cb st = Inl (x, s)" by blast
  with put_round_never_raises [OF assms] show False by blast
qed

lemma ceil_step25:
  fixes L :: nat
  assumes "0 < L"
  shows "(L + 24) div 25 = Suc ((L - min L 25 + 24) div 25)"
proof (cases "L \<le> 25")
  case True
  then have "min L 25 = L" by simp
  moreover have "(L + 24) div 25 = 1"
    using assms True by simp
  ultimately show ?thesis by simp
next
  case False
  then have "min L 25 = 25" by simp
  moreover have "L + 24 = (L - 25 + 24) + 25" using False by simp
  then have "(L + 24) div 25 = Suc ((L - 25 + 24) div 25)"
    by (metis div_add_self2 zero_neq_numeral Suc_eq_plus1)
  ultimately show ?thesis by simp
qed

text \<open>If moreover every call is rejected, the loop ends after one round per chunk.\<close>

lemma put_loop_all_rejected:
  assumes "\<forall>w. stringify w \<noteq> None" and "\<forall>b q. \<exists>e. fst (send b q) = Inl e"
  shows "(length (unprocessedItems st0) + 24) div 25 \<le> k \<Longrightarrow>
         \<exists>st. put_loop k cfg send stringify showError t cb st0 = Some (Inr st)"
proof (induction k arbitrary: st0)
  case 0
  then have "length (unprocessedItems st0) + 24 < 25" by (simp add: div_eq_0_iff)
  then have "unprocessedItems st0 = []" by simp
  then show ?case by (simp add: put_loop.simps)
next
  case (Suc k)
  show ?case
  proof (cases "unprocessedItems st0 = []")
    case True
    then show ?thesis by (simp add: put_loop.simps)
  next
    case False
    let ?m = "min (length (unprocessedItems st0)) batchWriteLimit"
    from assms(2) obtain e where rej: "fst (send (put_backend st0)
        [(t, take ?m (unprocessedItems st0))]) = Inl e" by blast
    from put_round_swallows [where stringify = stringify and send = send and st = st0
        and t = t and e = e and cfg = cfg and showError = showError and cb = cb] assms(1) rej
    obtain st1 where
      r: "put_round cfg send stringify showError t cb st0 = Inr st1"
      and u: "unprocessedItems st1 = drop ?m (unprocessedItems st0)" by blast
    have pos: "0 < length (unprocessedItems st0)" using False by simp
    have "length (unprocessedItems st1) = length (unprocessedItems st0) - min (length (unprocessedItems st0)) 25"
      by (simp add: u batchWriteLimit_def)
    moreover have "(length (unprocessedItems st0) + 24) div 25 =
        Suc ((length (unprocessedItems st0) - min (length (unprocessedItems st0)) 25 + 24) div 25)"
      by (rule ceil_step25 [OF pos])
    ultimately have "(length (unprocessedItems st1) + 24) div 25 \<le> k"
      using Suc.prems by simp
    from Suc.IH [OF this] obtain st where
      "put_loop k cfg send stringify showError t cb st1 = Some (Inr st)" by blast
    with r False have "put_loop (Suc k) cfg send stringify showError t cb st0 = Some (Inr st)"
      by (simp add: put_loop.simps)
    then show ?thesis by blast
  qed
qed

lemma batchPutAll_all_rejected:
  fixes send :: "('b, 'i BatchWriteCommandInput, 'e, 'i BatchWriteCommandOutput) backend"
  assumes "\<forall>w. stringify w \<noteq> None" and "\<forall>b q. \<exists>e. fst (send b q) = Inl e"
  shows "\<exists>b' tr. batchPutAll ((length items + 24) div 25) cfg send stringify showError t items cb b =
           Some (Inr (), b', tr)"
proof -
  have "(length (unprocessedItems (put_init cfg (map PutRequest items) b
      (if cb then [Callback ''starting batch write''] else []) :: ('i, 'b, 'e) put_state)) + 24) div 25
      \<le> (length items + 24) div 25"
    by (simp add: put_init_def)
  from put_loop_all_rejected [where stringify = stringify and send = send and cfg = cfg
      and t = t and cb = cb and showError = showError and k = "(length items + 24) div 25"
      and ?st0.0 = "put_init cfg (map PutRequest items) b
        (if cb then [Callback ''starting batch write''] else [])"] assms this
  show ?thesis
    by (auto simp: batchPutAll_loop)
qed

text \<open>
  C3 against the code. The \<open>catch\<close> handler of a rejected write builds its log line
  with \<open>JSON.stringify\<close> on each failed write request, and that call itself throws for a
  request that has no JSON form (an item with a \<open>BigInt\<close> attribute, a cyclic item). The
  handler then rejects and the \<open>TypeError\<close> reaches the caller of \<open>batchPutAll\<close>: here one
  item, a backend that rejects the write, and a \<open>stringify\<close> that throws on the item.
\<close>

theorem put_rejection_escapes:
  "batchPutAll 1 defaults
     (rejecting ''throttled'' ::
        (unit, nat BatchWriteCommandInput, string, nat BatchWriteCommandOutput) backend)
     (\<lambda>w. None) id ''t'' [1] False () =
   Some (Inl TypeError, (), [Send [(''t'', [PutRequest 1])] (Inl ''throttled'')])"
  by (simp add: put_eval)

end
